theory Spec2Isabelle
  imports Complex_Main "HOL-Library.Multiset"
begin

section \<open>Python list slicing\<close>

text \<open>
  Both \<^verbatim>\<open>ranking[:k]\<close> in \<^verbatim>\<open>precision_at_k\<close> and
  \<^verbatim>\<open>scores.argsort()[::-1][:k]\<close> in \<^verbatim>\<open>RAG.retrieve\<close> slice with an
  unbounded Python integer \<open>k\<close>.  A non-negative stop keeps the first \<open>k\<close> elements; a negative
  stop counts from the end, so that all but the last \<open>|k|\<close> elements are kept (none when
  \<open>|k|\<close> is at least the length).
\<close>

definition slice_to :: "'a list \<Rightarrow> int \<Rightarrow> 'a list" where
  "slice_to xs k =
     (if 0 \<le> k then take (nat k) xs else take (nat (int (length xs) + k)) xs)"

section \<open>Evaluation harness: \<^verbatim>\<open>evaluate.py\<close>\<close>

text \<open>
  \<^verbatim>\<open>return 1.0 if relevant_index in ranking[:k] else 0.0\<close>.
  The two floats \<open>1.0\<close> and \<open>0.0\<close> are the only results; they are written as the
  reals \<open>1\<close> and \<open>0\<close>.
\<close>

definition precision_at_k :: "int list \<Rightarrow> int \<Rightarrow> int \<Rightarrow> real" where
  "precision_at_k ranking relevant_index k =
     (if relevant_index \<in> set (slice_to ranking k) then 1 else 0)"

section \<open>Python values and exceptions\<close>

text \<open>
  The value of \<^verbatim>\<open>json.load\<close>: \<open>None\<close>, a bool, a number, a string, a list, or a
  dict with string keys.  Numbers are only carried, never computed with.  A dict is the list
  of its items in insertion order; a well-formed dict has pairwise distinct keys.
\<close>

datatype json =
    JNull
  | JBool bool
  | JInt int
  | JFloat real
  | JStr string
  | JList "json list"
  | JDict "(string \<times> json) list"

type_synonym pydict = "(string \<times> json) list"

text \<open>
  The exceptions that the modelled code can raise.  \<open>ValueError\<close> carries its message;
  \<open>OSError\<close> stands for a file that cannot be opened, \<open>JSONDecodeError\<close> for text that
  is not JSON, \<open>IndexError\<close> for a list index out of range.
\<close>

datatype error = ValueError string | OSError | JSONDecodeError | IndexError

text \<open>\<^verbatim>\<open>doc.get(key, default)\<close>.\<close>

definition dict_get :: "pydict \<Rightarrow> string \<Rightarrow> json \<Rightarrow> json" where
  "dict_get doc key dflt = (case map_of doc key of None \<Rightarrow> dflt | Some v \<Rightarrow> v)"

text \<open>
  A replacement field \<^verbatim>\<open>{v}\<close> of an f-string is \<^verbatim>\<open>format(v, '')\<close>: for a
  \<open>str\<close> it is the string itself; for any other value it is Python's \<open>str(v)\<close>, which is
  taken as the parameter \<open>py_str\<close>.
\<close>

definition format_value :: "(json \<Rightarrow> string) \<Rightarrow> json \<Rightarrow> string" where
  "format_value py_str v = (case v of JStr s \<Rightarrow> s | _ \<Rightarrow> py_str v)"

section \<open>Document loader: \<^verbatim>\<open>load_docs\<close> in \<^verbatim>\<open>rag.py\<close>\<close>

text \<open>
  \<^verbatim>\<open>
  path = Path(path)
  with path.open("r", encoding="utf-8") as f:
      data = json.load(f)
  if not isinstance(data, list):
      raise ValueError("documents JSON must contain a list")
  return data
  \<close>
  The file system is a map from paths to file contents and \<^verbatim>\<open>json.load\<close> is a parameter
  that parses the contents or raises.
\<close>

definition load_docs ::
  "(string \<rightharpoonup> string) \<Rightarrow> (string \<Rightarrow> error + json) \<Rightarrow> string \<Rightarrow> error + json list" where
  "load_docs fs json_load path =
     (case fs path of
        None \<Rightarrow> Inl OSError
      | Some f \<Rightarrow>
          (case json_load f of
             Inl e \<Rightarrow> Inl e
           | Inr data \<Rightarrow>
               (case data of
                  JList xs \<Rightarrow> Inr xs
                | _ \<Rightarrow> Inl (ValueError ''documents JSON must contain a list''))))"

section \<open>Library operations used by the engine\<close>

text \<open>
  \<^verbatim>\<open>RAG\<close> calls scikit-learn and NumPy, which are not part of the repository.  Their
  work is taken as parameters:
  \<^item> \<open>py_str\<close>: Python's \<open>str\<close> on a value that is not a string;
  \<^item> \<open>analyzer\<close>: the analyzer of \<^verbatim>\<open>TfidfVectorizer(stop_words="english")\<close>, from a
    text to its terms (lower-cased tokens that are not stop words);
  \<^item> \<open>tfidf_row\<close>: the row that the vectorizer fitted on a corpus gives to a text;
  \<^item> \<open>kernel\<close>: one entry of \<^verbatim>\<open>linear_kernel\<close>, the dot product of two rows as float64
    arithmetic computes it;
  \<^item> \<open>no_samples\<close>: the message of the \<open>ValueError\<close> that \<^verbatim>\<open>linear_kernel\<close> raises
    for a matrix without rows (the message names the shape of the matrix);
  \<^item> \<open>argsort\<close>: \<^verbatim>\<open>ndarray.argsort()\<close> with NumPy's default sort.
  A score is a float64 value that is not NaN.  It is written as the real number it denotes:
  \<open>retrieve\<close> only compares scores and passes them on.
\<close>

record 'v externals =
  py_str :: "json \<Rightarrow> string"
  analyzer :: "string \<Rightarrow> string list"
  tfidf_row :: "string list \<Rightarrow> string \<Rightarrow> 'v"
  kernel :: "'v \<Rightarrow> 'v \<Rightarrow> real"
  no_samples :: "'v \<Rightarrow> string"
  argsort :: "real list \<Rightarrow> nat list"

text \<open>
  What NumPy promises of \<^verbatim>\<open>argsort\<close>: the result lists every position of the array
  once, and the values at these positions ascend.  The default sort is not stable, so
  nothing is promised about the order of positions that hold equal values.
\<close>

definition ascending_permutation :: "real list \<Rightarrow> nat list \<Rightarrow> bool" where
  "ascending_permutation v p =
     (distinct p \<and> set p = {0..<length v} \<and> sorted_wrt (\<lambda>a b. v ! a \<le> v ! b) p)"

definition sorts_ascending :: "(real list \<Rightarrow> nat list) \<Rightarrow> bool" where
  "sorts_ascending f = (\<forall>v. ascending_permutation v (f v))"

text \<open>
  \<^verbatim>\<open>TfidfVectorizer.fit_transform\<close> collects the vocabulary of the corpus and raises
  \<open>ValueError\<close> when it is empty; otherwise it returns one row per text, in order, and
  leaves the vectorizer fitted.  The fitted vectorizer is represented by its
  \<^verbatim>\<open>transform\<close> on one text.
\<close>

definition fit_transform ::
  "'v externals \<Rightarrow> string list \<Rightarrow> error + ((string \<Rightarrow> 'v) \<times> 'v list)" where
  "fit_transform ext raw_documents =
     (let vocabulary = remdups (concat (map (analyzer ext) raw_documents))
      in if vocabulary = []
         then Inl (ValueError ''empty vocabulary; perhaps the documents only contain stop words'')
         else Inr (tfidf_row ext raw_documents, map (tfidf_row ext raw_documents) raw_documents))"

text \<open>
  \<^verbatim>\<open>linear_kernel(X, Y).flatten()\<close> for a one-row \<open>X\<close>: the library checks that \<open>Y\<close> has
  at least one row and raises \<open>ValueError\<close> otherwise; the result has one entry per row of
  \<open>Y\<close>, in order.
\<close>

definition linear_kernel :: "'v externals \<Rightarrow> 'v \<Rightarrow> 'v list \<Rightarrow> error + real list" where
  "linear_kernel ext x Y =
     (if Y = [] then Inl (ValueError (no_samples ext x)) else Inr (map (kernel ext x) Y))"

section \<open>Retrieval engine: class \<^verbatim>\<open>RAG\<close> in \<^verbatim>\<open>rag.py\<close>\<close>

record 'v RAG =
  docs :: "pydict list"
  texts :: "string list"
  vectorizer :: "string \<Rightarrow> 'v"
  doc_vectors :: "'v list"

text \<open>\<^verbatim>\<open>f"{doc.get('title', '')} {doc.get('description', '')}"\<close>\<close>

definition doc_text :: "'v externals \<Rightarrow> pydict \<Rightarrow> string" where
  "doc_text ext doc =
     format_value (py_str ext) (dict_get doc ''title'' (JStr ''''))
     @ '' '' @ format_value (py_str ext) (dict_get doc ''description'' (JStr ''''))"

text \<open>
  \<^verbatim>\<open>RAG.__init__\<close>: copy the documents, build the texts, fit the vectorizer.  An
  exception of \<^verbatim>\<open>fit_transform\<close> leaves the constructor, and no engine exists.
\<close>

definition RAG_init :: "'v externals \<Rightarrow> pydict list \<Rightarrow> error + 'v RAG" where
  "RAG_init ext documents =
     (let ds = documents;
          ts = map (doc_text ext) ds
      in case fit_transform ext ts of
           Inl e \<Rightarrow> Inl e
         | Inr (fitted, X) \<Rightarrow>
             Inr \<lparr>docs = ds, texts = ts, vectorizer = fitted, doc_vectors = X\<rparr>)"

text \<open>
  \<^verbatim>\<open>
  query_vec = self.vectorizer.transform([query])
  scores = linear_kernel(query_vec, self.doc_vectors).flatten()
  \<close>
\<close>

definition scores :: "'v externals \<Rightarrow> 'v RAG \<Rightarrow> string \<Rightarrow> error + real list" where
  "scores ext self query = linear_kernel ext (vectorizer self query) (doc_vectors self)"

text \<open>
  \<^verbatim>\<open>
  if not query:
      return []
  query_vec = self.vectorizer.transform([query])
  scores = linear_kernel(query_vec, self.doc_vectors).flatten()
  ranked_indices = scores.argsort()[::-1][:k]
  return [(int(idx), float(scores[idx])) for idx in ranked_indices if scores[idx] > 0]
  \<close>
  The cut-off \<open>k\<close> is always passed; the source's defaults are 3 for \<^verbatim>\<open>retrieve\<close>
  and 1 for \<^verbatim>\<open>answer\<close>.  An exception of \<^verbatim>\<open>linear_kernel\<close> leaves the method.
\<close>

definition retrieve ::
  "'v externals \<Rightarrow> 'v RAG \<Rightarrow> string \<Rightarrow> int \<Rightarrow> error + (nat \<times> real) list" where
  "retrieve ext self query k =
     (if query = [] then Inr []
      else
        case scores ext self query of
          Inl e \<Rightarrow> Inl e
        | Inr sc \<Rightarrow>
            Inr (map (\<lambda>idx. (idx, sc ! idx))
                   (filter (\<lambda>idx. 0 < sc ! idx) (slice_to (rev (argsort ext sc)) k))))"

definition fallback :: string where
  "fallback = ''I'' @ [CHR 0x27] @ ''m sorry, I couldn'' @ [CHR 0x27]
     @ ''t find information on that topic.''"

text \<open>
  \<^verbatim>\<open>
  results = self.retrieve(query, k)
  if not results:
      return "I'm sorry, I couldn't find information on that topic."
  idx, _score = results[0]
  doc = self.docs[idx]
  title = doc.get("title", "")
  description = doc.get("description", "")
  return f"{title}: {description}"
  \<close>
  \<^verbatim>\<open>self.docs[idx]\<close> raises \<open>IndexError\<close> when \<open>idx\<close> is not a position of the list.
\<close>

definition answer :: "'v externals \<Rightarrow> 'v RAG \<Rightarrow> string \<Rightarrow> int \<Rightarrow> error + string" where
  "answer ext self query k =
     (case retrieve ext self query k of
        Inl e \<Rightarrow> Inl e
      | Inr results \<Rightarrow>
          (case results of
             [] \<Rightarrow> Inr fallback
           | (idx, _) # _ \<Rightarrow>
               if idx < length (docs self)
               then
                 let doc = docs self ! idx;
                     title = dict_get doc ''title'' (JStr '''');
                     description = dict_get doc ''description'' (JStr '''')
                 in Inr (format_value (py_str ext) title @ '': ''
                         @ format_value (py_str ext) description)
               else Inl IndexError))"

section \<open>A small instance of the library operations\<close>

text \<open>
  For evaluating the engine on concrete catalogues: terms are the words between spaces, a
  row counts each vocabulary term in the text, and the kernel is the dot product of two
  rows.  Its \<open>argsort\<close> is an insertion sort: the positions \<open>0, 1, \<dots>\<close> are inserted in turn
  into the sorted sequence built so far, each one in front of the first position whose
  value is strictly greater.
\<close>

fun split_words :: "string \<Rightarrow> string \<Rightarrow> string list" where
  "split_words cur [] = (if cur = [] then [] else [cur])"
| "split_words cur (c # cs) =
     (if c = CHR '' ''
      then (if cur = [] then split_words [] cs else cur # split_words [] cs)
      else split_words (cur @ [c]) cs)"

definition count_row :: "string list \<Rightarrow> string \<Rightarrow> nat list" where
  "count_row corpus text =
     map (count_list (split_words [] text)) (remdups (concat (map (split_words []) corpus)))"

definition dot :: "nat list \<Rightarrow> nat list \<Rightarrow> real" where
  "dot u v = real (sum_list (map2 (*) u v))"

fun insert_idx :: "real list \<Rightarrow> nat \<Rightarrow> nat list \<Rightarrow> nat list" where
  "insert_idx v i [] = [i]"
| "insert_idx v i (j # js) =
     (if v ! i < v ! j then i # j # js else j # insert_idx v i js)"

fun argsort_upto :: "real list \<Rightarrow> nat \<Rightarrow> nat list" where
  "argsort_upto v 0 = []"
| "argsort_upto v (Suc n) = insert_idx v n (argsort_upto v n)"

definition insertion_argsort :: "real list \<Rightarrow> nat list" where
  "insertion_argsort v = argsort_upto v (length v)"

definition word_counts :: "nat list externals" where
  "word_counts =
     \<lparr>py_str = (\<lambda>_. ''''), analyzer = split_words [], tfidf_row = count_row, kernel = dot,
      no_samples = (\<lambda>_. ''Found array with 0 sample(s)''), argsort = insertion_argsort\<rparr>"

definition laptop :: pydict where
  "laptop = [(''title'', JStr ''laptop''), (''description'', JStr ''fast'')]"

definition phone :: pydict where
  "phone = [(''title'', JStr ''phone''), (''description'', JStr ''fast'')]"

definition cable :: pydict where
  "cable = [(''title'', JStr ''cable'')]"

text \<open>The engine that \<open>RAG_init word_counts [laptop, phone, cable]\<close> builds.\<close>

definition shop :: "nat list RAG" where
  "shop =
     \<lparr>docs = [laptop, phone, cable],
      texts = [''laptop fast'', ''phone fast'', ''cable ''],
      vectorizer = count_row [''laptop fast'', ''phone fast'', ''cable ''],
      doc_vectors = [[1, 0, 1, 0], [0, 1, 1, 0], [0, 0, 0, 1]]\<rparr>"

section \<open>An instance with float64 arithmetic\<close>

text \<open>
  A positive float64 value is \<open>m \<cdot> 2\<^sup>e\<close> with a 53-bit \<open>m\<close>; zero is \<open>(0, 0)\<close>.  Every
  operation computes the exact result and rounds it to 53 bits, to nearest, ties to even
  (IEEE 754 binary64; the values used here are far from overflow and underflow).
\<close>

type_synonym float64 = "int \<times> int"

fun bit_length :: "nat \<Rightarrow> nat" where
  "bit_length n = (if n = 0 then 0 else Suc (bit_length (n div 2)))"

declare bit_length.simps [simp del]

definition round_even :: "int \<Rightarrow> nat \<Rightarrow> int" where
  "round_even n s =
     (let q = n div 2 ^ s; r = n mod 2 ^ s
      in if 2 * r < 2 ^ s then q
         else if 2 ^ s < 2 * r then q + 1
         else if even q then q else q + 1)"

definition normal :: "int \<Rightarrow> int \<Rightarrow> float64" where
  "normal n e =
     (if n \<le> 0 then (0, 0)
      else
        let l = bit_length (nat n)
        in if l \<le> 53 then (n * 2 ^ (53 - l), e - int (53 - l))
           else
             let s = l - 53; m = round_even n s
             in if m = 2 ^ 53 then (2 ^ 52, e + int s + 1) else (m, e + int s))"

definition fmul :: "float64 \<Rightarrow> float64 \<Rightarrow> float64" where
  "fmul a b = normal (fst a * fst b) (snd a + snd b)"

definition fadd :: "float64 \<Rightarrow> float64 \<Rightarrow> float64" where
  "fadd a b =
     (if fst a = 0 then b
      else if fst b = 0 then a
      else
        let e = min (snd a) (snd b)
        in normal (fst a * 2 ^ nat (snd a - e) + fst b * 2 ^ nat (snd b - e)) e)"

text \<open>
  Division and square root compute more than 53 bits of the result and append a bit that
  tells whether anything was cut off, so that the rounding sees a tie only when there is
  one.
\<close>

definition fdiv :: "float64 \<Rightarrow> float64 \<Rightarrow> float64" where
  "fdiv a b =
     (let n = fst a * 2 ^ 64; q = n div fst b; r = n mod fst b
      in normal (2 * q + (if r = 0 then 0 else 1)) (snd a - snd b - 65))"

definition isqrt_step :: "nat \<Rightarrow> nat \<Rightarrow> nat" where
  "isqrt_step r n = (if (r + 1) * (r + 1) \<le> n then r + 1 else r)"

fun isqrt :: "nat \<Rightarrow> nat" where
  "isqrt n = (if n < 2 then n else isqrt_step (2 * isqrt (n div 4)) n)"

declare isqrt.simps [simp del]

definition sticky_root :: "nat \<Rightarrow> nat \<Rightarrow> int" where
  "sticky_root s n = 2 * int s + (if s * s = n then 0 else 1)"

definition fsqrt_scaled :: "float64 \<Rightarrow> nat \<Rightarrow> float64" where
  "fsqrt_scaled a k =
     normal (sticky_root (isqrt (nat (fst a) * 2 ^ k)) (nat (fst a) * 2 ^ k))
       ((snd a - int k) div 2 - 1)"

definition fsqrt :: "float64 \<Rightarrow> float64" where
  "fsqrt a = fsqrt_scaled a (if even (snd a) then 70 else 71)"

definition of_count :: "nat \<Rightarrow> float64" where
  "of_count c = normal (int c) 0"

definition to_real :: "float64 \<Rightarrow> real" where
  "to_real a =
     (if 0 \<le> snd a then of_int (fst a) * 2 ^ nat (snd a)
      else of_int (fst a) / 2 ^ nat (- snd a))"

text \<open>
  The TF-IDF row of a text, for a corpus each of whose terms occurs in every document (a
  corpus of one document, for example): the smoothed inverse document frequency of every
  term is then \<open>log 1.0 + 1 = 1.0\<close>, the weights are the term counts, and the row is the
  count vector divided by its Euclidean norm, as
  \<^verbatim>\<open>TfidfVectorizer\<close> normalises it (\<^verbatim>\<open>norm="l2"\<close>): the squares are summed, the square
  root is taken, and every entry is divided by it.  The kernel sums the products of the
  entries from \<open>0.0\<close>.
\<close>

definition l2_row :: "string list \<Rightarrow> string \<Rightarrow> float64 list" where
  "l2_row corpus text =
     (let tf = map (\<lambda>t. of_count (count_list (split_words [] text) t))
                 (remdups (concat (map (split_words []) corpus)));
          norm = fsqrt (foldl fadd (0, 0) (map (\<lambda>x. fmul x x) tf))
      in if fst norm = 0 then tf else map (\<lambda>x. fdiv x norm) tf)"

definition fdot :: "float64 list \<Rightarrow> float64 list \<Rightarrow> real" where
  "fdot u v = to_real (foldl fadd (0, 0) (map2 fmul u v))"

definition float64_tfidf :: "float64 list externals" where
  "float64_tfidf =
     \<lparr>py_str = (\<lambda>_. ''''), analyzer = split_words [], tfidf_row = l2_row, kernel = fdot,
      no_samples = (\<lambda>_. ''Found array with 0 sample(s)''), argsort = insertion_argsort\<rparr>"

definition gadget :: pydict where
  "gadget = [(''title'', JStr ''laptop phone''), (''description'', JStr ''cable'')]"

text \<open>The engine that \<open>RAG_init float64_tfidf [gadget]\<close> builds.\<close>

definition kiosk :: "float64 list RAG" where
  "kiosk =
     \<lparr>docs = [gadget],
      texts = [''laptop phone cable''],
      vectorizer = l2_row [''laptop phone cable''],
      doc_vectors =
        [[(5200308914369309, - 53), (5200308914369309, - 53), (5200308914369309, - 53)]]\<rparr>"

section \<open>Notions used in the proofs\<close>

text \<open>The indices that \<open>retrieve\<close> returns, before they are paired with their scores.\<close>

definition ranked :: "(real list \<Rightarrow> nat list) \<Rightarrow> real list \<Rightarrow> int \<Rightarrow> nat list" where
  "ranked f sc k = filter (\<lambda>idx. 0 < sc ! idx) (slice_to (rev (f sc)) k)"

section \<open>Properties of the evaluation harness\<close>

lemma slice_to_nonneg: "0 \<le> k \<Longrightarrow> slice_to xs k = take (nat k) xs"
  by (simp add: slice_to_def)

lemma slice_to_neg:
  "k < 0 \<Longrightarrow> slice_to xs k = take (length xs - nat (- k)) xs"
proof -
  assume "k < 0"
  then have "nat (int (length xs) + k) = length xs - nat (- k)"
    by linarith
  with \<open>k < 0\<close> show ?thesis
    by (simp add: slice_to_def)
qed

text \<open>
  Claim C7.  For a non-negative cut-off \<open>k\<close>, \<open>precision_at_k\<close> is \<open>1.0\<close> exactly when the
  relevant index occurs among the first \<open>k\<close> elements of the ranking and \<open>0.0\<close> otherwise;
  \<open>k = 0\<close> always gives \<open>0.0\<close>; and the three boundary examples of the specification evaluate
  as stated.
\<close>

theorem precision_at_k_first_k:
  "0 \<le> k \<Longrightarrow>
     precision_at_k ranking relevant_index k =
       (if relevant_index \<in> set (take (nat k) ranking) then 1 else 0)
     \<and> precision_at_k ranking relevant_index 0 = 0
     \<and> precision_at_k [5, 2, 1] 2 2 = 1
     \<and> precision_at_k [5, 2, 1] 1 1 = 0
     \<and> precision_at_k [] 0 3 = 0"
  by (simp add: precision_at_k_def slice_to_def)

theorem precision_at_k_first_k_witness:
  "(0::int) \<le> 2
   \<and> precision_at_k [7, 4, 9] 4 2 = (if (4::int) \<in> set (take (nat 2) [7, 4, 9]) then 1 else 0)
   \<and> precision_at_k [7, 4, 9] 4 2 = 1
   \<and> precision_at_k [7, 4, 9] 9 2 = 0"
  using precision_at_k_first_k [of 2 "[7, 4, 9]" 4]
  by (simp add: precision_at_k_def slice_to_def)

text \<open>
  Claim C10.  A negative cut-off is not mapped to \<open>0.0\<close>: the slice keeps all but the last
  \<open>|k|\<close> elements of the ranking, so \<open>precision_at_k [5, 2, 1] 5 (-1)\<close> is \<open>1.0\<close>; some
  negative \<open>k\<close> therefore gives a result other than \<open>0.0\<close>, while \<open>k = 0\<close> gives \<open>0.0\<close> for
  every ranking and every index.
\<close>

theorem precision_at_k_negative_cutoff:
  "precision_at_k [5, 2, 1] 5 (- 1) = 1
   \<and> (\<exists>k ranking relevant_index. k < 0 \<and> precision_at_k ranking relevant_index k \<noteq> 0)
   \<and> (\<forall>k ranking relevant_index. k < 0 \<longrightarrow>
         precision_at_k ranking relevant_index k =
           (if relevant_index \<in> set (take (length ranking - nat (- k)) ranking) then 1 else 0))
   \<and> (\<forall>ranking relevant_index. precision_at_k ranking relevant_index 0 = 0)"
proof -
  have ex: "precision_at_k [5, 2, 1] 5 (- 1) = 1"
    by (simp add: precision_at_k_def slice_to_def)
  have "(- 1 :: int) < 0 \<and> precision_at_k [5, 2, 1] 5 (- 1) \<noteq> 0"
    using ex by simp
  then have some: "\<exists>k ranking relevant_index. k < 0 \<and> precision_at_k ranking relevant_index k \<noteq> 0"
    by blast
  have neg: "\<forall>k ranking relevant_index. k < 0 \<longrightarrow>
         precision_at_k ranking relevant_index k =
           (if relevant_index \<in> set (take (length ranking - nat (- k)) ranking) then 1 else 0)"
    by (simp add: precision_at_k_def slice_to_neg)
  have zero: "\<forall>ranking relevant_index. precision_at_k ranking relevant_index 0 = 0"
    by (simp add: precision_at_k_def slice_to_def)
  from ex some neg zero show ?thesis by blast
qed

theorem precision_at_k_negative_cutoff_witness:
  "(- 2 :: int) < 0
   \<and> precision_at_k [5, 2, 1] 5 (- 2) =
       (if (5::int) \<in> set (take (length [5, 2, 1 :: int] - nat (- (- 2))) [5, 2, 1]) then 1 else 0)
   \<and> precision_at_k [5, 2, 1] 5 (- 2) = 1
   \<and> precision_at_k [5, 2, 1] 2 (- 2) = 0"
proof -
  have "precision_at_k [5, 2, 1] 5 (- 2) =
       (if (5::int) \<in> set (take (length [5, 2, 1 :: int] - nat (- (- 2))) [5, 2, 1]) then 1 else 0)"
    using precision_at_k_negative_cutoff by simp
  then show ?thesis
    by (simp add: precision_at_k_def slice_to_def)
qed

section \<open>The ranking computed by \<open>retrieve\<close>\<close>

subsection \<open>What follows from the promise of \<open>argsort\<close>\<close>

lemma set_argsort: "sorts_ascending f \<Longrightarrow> set (f v) = {0..<length v}"
  by (simp add: sorts_ascending_def ascending_permutation_def)

lemma distinct_argsort: "sorts_ascending f \<Longrightarrow> distinct (f v)"
  by (simp add: sorts_ascending_def ascending_permutation_def)

lemma sorted_argsort: "sorts_ascending f \<Longrightarrow> sorted_wrt (\<lambda>a b. v ! a \<le> v ! b) (f v)"
  by (simp add: sorts_ascending_def ascending_permutation_def)

lemma slice_to_take:
  "slice_to xs k = take (if 0 \<le> k then nat k else nat (int (length xs) + k)) xs"
  by (simp add: slice_to_def)

lemma sorted_ranked:
  assumes "sorts_ascending f"
  shows "sorted_wrt (\<lambda>a b. sc ! b \<le> sc ! a) (ranked f sc k)"
proof -
  have "sorted_wrt (\<lambda>a b. sc ! b \<le> sc ! a) (rev (f sc))"
    using assms by (simp add: sorted_wrt_rev sorted_argsort)
  then have "sorted_wrt (\<lambda>a b. sc ! b \<le> sc ! a) (slice_to (rev (f sc)) k)"
    unfolding slice_to_take by (rule sorted_wrt_take)
  then show ?thesis
    unfolding ranked_def by (rule sorted_wrt_filter)
qed

lemma set_ranked:
  assumes "sorts_ascending f"
  shows "set (ranked f sc k) \<subseteq> {i. i < length sc \<and> 0 < sc ! i}"
proof -
  have "set (slice_to (rev (f sc)) k) \<subseteq> set (rev (f sc))"
    unfolding slice_to_take by (rule set_take_subset)
  with assms show ?thesis
    by (auto simp: ranked_def set_argsort)
qed

lemma distinct_ranked: "sorts_ascending f \<Longrightarrow> distinct (ranked f sc k)"
  unfolding ranked_def slice_to_take
  by (intro distinct_filter distinct_take) (simp add: distinct_argsort)

text \<open>
  In a sequence of non-increasing values the positive ones form a prefix, so keeping the
  positive values of the first \<open>n\<close> is keeping the first \<open>n\<close> of the positive values.
\<close>

lemma filter_take_prefix:
  "sorted_wrt (\<lambda>a b. f b \<le> f a) p \<Longrightarrow>
     filter (\<lambda>i. (0::real) < f i) (take n p) = take n (filter (\<lambda>i. 0 < f i) p)"
proof (induction p arbitrary: n)
  case Nil
  then show ?case by simp
next
  case (Cons a p)
  show ?case
  proof (cases n)
    case 0
    then show ?thesis by simp
  next
    case (Suc m)
    show ?thesis
    proof (cases "0 < f a")
      case True
      with Cons Suc show ?thesis by simp
    next
      case False
      with Cons.prems have "\<forall>x\<in>set p. \<not> 0 < f x" by auto
      then have "filter (\<lambda>i. 0 < f i) p = []" "filter (\<lambda>i. 0 < f i) (take m p) = []"
        by (auto simp: filter_empty_conv dest: in_set_takeD)
      with False Suc show ?thesis by simp
    qed
  qed
qed

lemma count_positive_argsort:
  assumes "sorts_ascending f"
  shows "length (filter (\<lambda>i. 0 < sc ! i) (rev (f sc))) = length (filter (\<lambda>s. 0 < s) sc)"
proof -
  have "mset (f sc) = mset [0..<length sc]"
    using assms set_eq_iff_mset_eq_distinct [of "f sc" "[0..<length sc]"]
    by (simp add: distinct_argsort set_argsort del: mset_upt)
  then have "mset (rev (f sc)) = mset [0..<length sc]"
    by (simp only: mset_rev)
  then have "mset (filter (\<lambda>i. 0 < sc ! i) (rev (f sc)))
      = mset (filter (\<lambda>i. 0 < sc ! i) [0..<length sc])"
    by (simp only: mset_filter)
  then have "length (filter (\<lambda>i. 0 < sc ! i) (rev (f sc)))
      = length (filter (\<lambda>i. 0 < sc ! i) [0..<length sc])"
    by (metis size_mset)
  also have "\<dots> = length (filter (\<lambda>s. 0 < s) (map (\<lambda>i. sc ! i) [0..<length sc]))"
    by (simp add: filter_map comp_def)
  also have "\<dots> = length (filter (\<lambda>s. 0 < s) sc)"
    by (simp add: map_nth)
  finally show ?thesis .
qed

lemma length_ranked:
  assumes "sorts_ascending f" and k: "0 \<le> k"
  shows "length (ranked f sc k) = min (nat k) (length (filter (\<lambda>s. 0 < s) sc))"
proof -
  have "sorted_wrt (\<lambda>a b. sc ! b \<le> sc ! a) (rev (f sc))"
    using assms by (simp add: sorted_wrt_rev sorted_argsort)
  then have "filter (\<lambda>i. 0 < sc ! i) (take (nat k) (rev (f sc)))
      = take (nat k) (filter (\<lambda>i. 0 < sc ! i) (rev (f sc)))"
    by (rule filter_take_prefix)
  with assms show ?thesis
    by (simp add: ranked_def slice_to_def count_positive_argsort)
qed

subsection \<open>Engines with document vectors, and engines built by the constructor\<close>

lemma scores_Inr:
  "doc_vectors self \<noteq> [] \<Longrightarrow>
     scores ext self q = Inr (map (kernel ext (vectorizer self q)) (doc_vectors self))"
  by (simp add: scores_def linear_kernel_def)

lemma scores_length: "scores ext self q = Inr sc \<Longrightarrow> length sc = length (doc_vectors self)"
  by (auto simp: scores_def linear_kernel_def split: if_splits)

lemma scores_kernel:
  "scores ext self q = Inr sc \<Longrightarrow> i < length sc \<Longrightarrow>
     sc ! i = kernel ext (vectorizer self q) (doc_vectors self ! i)"
  by (auto simp: scores_def linear_kernel_def split: if_splits)

lemma retrieve_ranked:
  "scores ext self q = Inr sc \<Longrightarrow>
     retrieve ext self q k =
       Inr (if q = [] then [] else map (\<lambda>idx. (idx, sc ! idx)) (ranked (argsort ext) sc k))"
  by (simp add: retrieve_def ranked_def)

lemma RAG_init_Inr:
  "RAG_init ext documents = Inr self \<Longrightarrow>
     docs self = documents \<and> length (doc_vectors self) = length documents
     \<and> doc_vectors self \<noteq> []"
  by (auto simp: RAG_init_def fit_transform_def Let_def split: if_splits)

lemma answer_Nil: "retrieve ext self q k = Inr [] \<Longrightarrow> answer ext self q k = Inr fallback"
  by (simp add: answer_def)

lemma answer_Cons:
  "retrieve ext self q k = Inr ((idx, s) # rest) \<Longrightarrow> idx < length (docs self) \<Longrightarrow>
     answer ext self q k =
       Inr (format_value (py_str ext) (dict_get (docs self ! idx) ''title'' (JStr ''''))
            @ '': ''
            @ format_value (py_str ext) (dict_get (docs self ! idx) ''description'' (JStr '''')))"
  by (simp add: answer_def Let_def)

text \<open>What \<open>retrieve\<close> returns on an engine that has document vectors.\<close>

lemma retrieve_result:
  assumes srt: "sorts_ascending (argsort ext)" and dv: "doc_vectors self \<noteq> []"
  obtains sc r where
    "scores ext self q = Inr sc"
    "length sc = length (doc_vectors self)"
    "retrieve ext self q k = Inr r"
    "map fst r = (if q = [] then [] else ranked (argsort ext) sc k)"
    "\<forall>(i, s) \<in> set r. i < length sc \<and> s = sc ! i \<and> 0 < s"
    "distinct (map fst r)"
    "sorted_wrt (\<lambda>x y. snd y \<le> snd x) r"
proof -
  define sc where "sc = map (kernel ext (vectorizer self q)) (doc_vectors self)"
  define r where
    "r = (if q = [] then [] else map (\<lambda>idx. (idx, sc ! idx)) (ranked (argsort ext) sc k))"
  have s: "scores ext self q = Inr sc"
    using dv by (simp add: scores_Inr sc_def)
  have len: "length sc = length (doc_vectors self)"
    by (simp add: sc_def)
  have ret: "retrieve ext self q k = Inr r"
    using s by (simp add: retrieve_ranked r_def)
  have fsts: "map fst r = (if q = [] then [] else ranked (argsort ext) sc k)"
    by (simp add: r_def comp_def)
  have mem: "\<forall>(i, s) \<in> set r. i < length sc \<and> s = sc ! i \<and> 0 < s"
    using set_ranked [OF srt, of sc k] by (auto simp: r_def)
  have dist: "distinct (map fst r)"
    using srt by (simp add: fsts distinct_ranked)
  have "sorted_wrt (\<lambda>a b. sc ! b \<le> sc ! a) (ranked (argsort ext) sc k)"
    using srt by (rule sorted_ranked)
  then have sorted: "sorted_wrt (\<lambda>x y. snd y \<le> snd x) r"
    by (simp add: r_def sorted_wrt_map)
  from s len ret fsts mem dist sorted show ?thesis
    by (rule that)
qed

subsection \<open>The insertion sort keeps the promise of \<open>argsort\<close>\<close>

lemma set_insert_idx: "set (insert_idx v i js) = insert i (set js)"
  by (induction js) auto

lemma distinct_insert_idx: "distinct (insert_idx v i js) = (i \<notin> set js \<and> distinct js)"
  by (induction js) (auto simp: set_insert_idx)

lemma set_argsort_upto: "set (argsort_upto v n) = {0..<n}"
  by (induction n) (auto simp: set_insert_idx)

lemma distinct_argsort_upto: "distinct (argsort_upto v n)"
  by (induction n) (auto simp: distinct_insert_idx set_argsort_upto)

lemma sorted_insert_idx:
  "sorted_wrt (\<lambda>a b. v ! a \<le> v ! b) js \<Longrightarrow>
     sorted_wrt (\<lambda>a b. v ! a \<le> v ! b) (insert_idx v n js)"
proof (induction js)
  case Nil
  then show ?case by simp
next
  case (Cons j js)
  then show ?case
    by (fastforce simp: set_insert_idx)
qed

lemma sorted_argsort_upto: "sorted_wrt (\<lambda>a b. v ! a \<le> v ! b) (argsort_upto v n)"
  by (induction n) (auto simp: sorted_insert_idx)

lemma sorts_insertion_argsort: "sorts_ascending insertion_argsort"
  by (simp add: sorts_ascending_def ascending_permutation_def insertion_argsort_def
      set_argsort_upto distinct_argsort_upto sorted_argsort_upto)

lemma sorts_word_counts: "sorts_ascending (argsort word_counts)"
  by (simp add: word_counts_def sorts_insertion_argsort)

lemma sorts_float64_tfidf: "sorts_ascending (argsort float64_tfidf)"
  by (simp add: float64_tfidf_def sorts_insertion_argsort)

subsection \<open>The engine \<open>shop\<close>, evaluated\<close>

lemma texts_shop:
  "map (doc_text word_counts) [laptop, phone, cable]
     = [''laptop fast'', ''phone fast'', ''cable '']"
  by (simp add: doc_text_def word_counts_def laptop_def phone_def cable_def dict_get_def
      format_value_def)

lemma fit_shop:
  "fit_transform word_counts [''laptop fast'', ''phone fast'', ''cable '']
      = Inr (count_row [''laptop fast'', ''phone fast'', ''cable ''],
             [[1, 0, 1, 0], [0, 1, 1, 0], [0, 0, 0, 1]])"
  by (simp add: fit_transform_def word_counts_def count_row_def)

lemma init_shop: "RAG_init word_counts [laptop, phone, cable] = Inr shop"
  unfolding RAG_init_def Let_def texts_shop fit_shop shop_def
  by simp

lemma docs_shop: "docs shop = [laptop, phone, cable]"
  by (simp add: shop_def)

lemma vectors_shop: "doc_vectors shop \<noteq> []"
  by (simp add: shop_def)

lemma scores_fast: "scores word_counts shop ''fast'' = Inr [1, 1, 0]"
  by (simp add: scores_def linear_kernel_def shop_def word_counts_def count_row_def dot_def)

lemma scores_empty: "scores word_counts shop '''' = Inr [0, 0, 0]"
  by (simp add: scores_def linear_kernel_def shop_def word_counts_def count_row_def dot_def)

lemma scores_cable: "scores word_counts shop ''cable'' = Inr [0, 0, 1]"
  by (simp add: scores_def linear_kernel_def shop_def word_counts_def count_row_def dot_def)

lemma scores_tablet: "scores word_counts shop ''tablet'' = Inr [0, 0, 0]"
  by (simp add: scores_def linear_kernel_def shop_def word_counts_def count_row_def dot_def)

lemma argsort_word_counts: "argsort word_counts = insertion_argsort"
  by (simp add: word_counts_def)

lemma retrieve_fast: "retrieve word_counts shop ''fast'' 3 = Inr [(1, 1), (0, 1)]"
  by (simp add: retrieve_def scores_fast argsort_word_counts insertion_argsort_def slice_to_def
      numeral_3_eq_3)

lemma retrieve_fast_1: "retrieve word_counts shop ''fast'' 1 = Inr [(1, 1)]"
  by (simp add: retrieve_def scores_fast argsort_word_counts insertion_argsort_def slice_to_def
      numeral_3_eq_3)

lemma retrieve_cable: "retrieve word_counts shop ''cable'' 1 = Inr [(2, 1)]"
  by (simp add: retrieve_def scores_cable argsort_word_counts insertion_argsort_def slice_to_def
      numeral_3_eq_3)

lemma retrieve_tablet: "retrieve word_counts shop ''tablet'' 1 = Inr []"
  by (simp add: retrieve_def scores_tablet argsort_word_counts insertion_argsort_def slice_to_def
      numeral_3_eq_3)

lemma answer_fast: "answer word_counts shop ''fast'' 3 = Inr ''phone: fast''"
  by (simp add: answer_def retrieve_fast docs_shop Let_def)
     (simp add: phone_def dict_get_def format_value_def)

subsection \<open>The engine \<open>kiosk\<close>, evaluated\<close>

lemmas float64_defs =
  fmul_def fadd_def fdiv_def fsqrt_def fsqrt_scaled_def sticky_root_def of_count_def normal_def
  round_even_def isqrt_step_def Let_def

lemma row_kiosk:
  "l2_row [''laptop phone cable''] ''laptop phone cable''
     = [(5200308914369309, - 53), (5200308914369309, - 53), (5200308914369309, - 53)]"
proof -
  have tf: "map (\<lambda>t. of_count (count_list (split_words [] ''laptop phone cable'') t))
               (remdups (concat (map (split_words []) [''laptop phone cable''])))
            = [(4503599627370496, - 52), (4503599627370496, - 52), (4503599627370496, - 52)]"
    by (simp add: of_count_def normal_def bit_length.simps Let_def)
  have sq: "fmul (4503599627370496, - 52) (4503599627370496, - 52) = (4503599627370496, - 52)"
    by (simp add: float64_defs bit_length.simps)
  have sum: "fadd (fadd (fadd (0, 0) (4503599627370496, - 52)) (4503599627370496, - 52))
               (4503599627370496, - 52)
             = (6755399441055744, - 51)"
    by (simp add: float64_defs bit_length.simps)
  have root: "fsqrt (6755399441055744, - 51) = (7800463371553962, - 52)"
    by (simp add: float64_defs bit_length.simps isqrt.simps)
  have quot: "fdiv (4503599627370496, - 52) (7800463371553962, - 52) = (5200308914369309, - 53)"
    by (simp add: float64_defs bit_length.simps)
  show ?thesis
    unfolding l2_row_def Let_def tf
    by (simp add: sq sum root quot)
qed

lemma kernel_kiosk:
  "fdot [(5200308914369309, - 53), (5200308914369309, - 53), (5200308914369309, - 53)]
        [(5200308914369309, - 53), (5200308914369309, - 53), (5200308914369309, - 53)]
     = 4503599627370497 / 4503599627370496"
proof -
  have prod: "fmul (5200308914369309, - 53) (5200308914369309, - 53) = (6004799503160663, - 54)"
    by (simp add: float64_defs bit_length.simps)
  have sum: "fadd (fadd (fadd (0, 0) (6004799503160663, - 54)) (6004799503160663, - 54))
               (6004799503160663, - 54)
             = (4503599627370497, - 52)"
    by (simp add: float64_defs bit_length.simps)
  show ?thesis
    by (simp add: fdot_def prod sum to_real_def)
qed

lemma text_gadget: "map (doc_text float64_tfidf) [gadget] = [''laptop phone cable'']"
  by (simp add: doc_text_def float64_tfidf_def gadget_def dict_get_def format_value_def)

lemma fit_kiosk:
  "fit_transform float64_tfidf [''laptop phone cable'']
     = Inr (l2_row [''laptop phone cable''],
            [[(5200308914369309, - 53), (5200308914369309, - 53), (5200308914369309, - 53)]])"
  by (simp add: fit_transform_def float64_tfidf_def row_kiosk)

lemma init_kiosk: "RAG_init float64_tfidf [gadget] = Inr kiosk"
  unfolding RAG_init_def Let_def text_gadget fit_kiosk kiosk_def
  by simp

lemma scores_kiosk:
  "scores float64_tfidf kiosk ''laptop phone cable'' = Inr [4503599627370497 / 4503599627370496]"
  by (simp add: scores_def linear_kernel_def kiosk_def float64_tfidf_def row_kiosk kernel_kiosk)

lemma retrieve_kiosk:
  "retrieve float64_tfidf kiosk ''laptop phone cable'' 1
     = Inr [(0, 4503599627370497 / 4503599627370496)]"
  by (simp add: retrieve_def scores_kiosk slice_to_def)
     (simp add: float64_tfidf_def insertion_argsort_def)

section \<open>Properties of the retrieval engine\<close>

text \<open>
  The constructor on the empty collection, evaluated with the word-count instance: the
  vocabulary of no texts is empty, and the constructor ends with the vectorizer's
  \<open>ValueError\<close> instead of an engine.
\<close>

theorem RAG_init_empty_counterexample:
  "RAG_init word_counts [] =
     Inl (ValueError ''empty vocabulary; perhaps the documents only contain stop words'')"
  by (simp add: RAG_init_def fit_transform_def)

text \<open>
  Claim C1, amended.  Building the engine from an empty document collection does not
  succeed: whatever the analyzer, the vocabulary is empty and the constructor raises the
  vectorizer's \<open>ValueError\<close>, so no engine is produced on which \<open>retrieve\<close> or \<open>answer\<close>
  could be called.
\<close>

theorem RAG_init_empty_raises:
  "RAG_init ext [] =
     Inl (ValueError ''empty vocabulary; perhaps the documents only contain stop words'')"
  by (simp add: RAG_init_def fit_transform_def)

text \<open>
  Two documents with equal scores: \<open>laptop\<close> (index 0) and \<open>phone\<close> (index 1) both contain
  the query term \<open>fast\<close> once and both score 1; \<open>cable\<close> scores 0.  The ascending argsort of
  these scores is \<open>[2, 0, 1]\<close>, the ranking is its reversal, and the entry with index 1
  comes before the entry with index 0.
\<close>

theorem retrieve_ties_counterexample:
  "RAG_init word_counts [laptop, phone, cable] = Inr shop
   \<and> retrieve word_counts shop ''fast'' 3 = Inr [(1, 1), (0, 1)]"
  using init_shop retrieve_fast by simp

text \<open>
  Claim C2, amended.  On an engine that has document vectors (every engine that the
  constructor builds has), for every query and every \<open>k\<close>, \<open>retrieve\<close> returns a sequence
  that is sorted by score descending: no entry has a greater score than an entry before it.
  The order of entries with equal scores is whatever NumPy's argsort leaves after the
  reversal; it is not promised to be ascending in the document index.
\<close>

theorem retrieve_order:
  "sorts_ascending (argsort ext) \<Longrightarrow> doc_vectors self \<noteq> [] \<Longrightarrow>
     \<exists>r. retrieve ext self q k = Inr r \<and> sorted_wrt (\<lambda>(i, s) (j, t). t \<le> s) r"
proof -
  assume srt: "sorts_ascending (argsort ext)" and dv: "doc_vectors self \<noteq> []"
  from srt dv obtain sc r where
    ret: "retrieve ext self q k = Inr r" and sorted: "sorted_wrt (\<lambda>x y. snd y \<le> snd x) r"
    by (rule retrieve_result)
  from sorted have "sorted_wrt (\<lambda>(i, s) (j, t). t \<le> s) r"
    by (rule sorted_wrt_mono_rel [rotated]) auto
  with ret show ?thesis by blast
qed

theorem retrieve_order_witness:
  "sorts_ascending (argsort word_counts) \<and> doc_vectors shop \<noteq> []
   \<and> retrieve word_counts shop ''fast'' 3 = Inr [(1, 1), (0, 1)]
   \<and> sorted_wrt (\<lambda>(i, s) (j, t). t \<le> s) [(1::nat, 1::real), (0, 1)]"
  using retrieve_order [OF sorts_word_counts vectors_shop, of "''fast''" 3]
  by (simp add: sorts_word_counts vectors_shop retrieve_fast)

text \<open>
  Claim C3.  On an engine that has document vectors, for a non-negative \<open>k\<close>, \<open>retrieve\<close>
  returns a sequence whose length is the minimum of \<open>k\<close> and the number of documents whose
  score for the query is positive; in particular it is at most \<open>k\<close>, the result for
  \<open>k = 0\<close> is empty, and every returned score is positive.  For the empty query the code
  returns the empty sequence before it computes any score, so the length is 0 there; this
  is the same minimum, because the vectorizer gives the empty query the zero row and no
  document a positive score (the last conjunct states the minimum for every query under
  this fact about the library).
\<close>

theorem retrieve_length:
  "0 \<le> k \<Longrightarrow> sorts_ascending (argsort ext) \<Longrightarrow> doc_vectors self \<noteq> [] \<Longrightarrow>
     \<exists>sc r. scores ext self q = Inr sc \<and> retrieve ext self q k = Inr r
       \<and> length r = (if q = [] then 0 else min (nat k) (length (filter (\<lambda>s. 0 < s) sc)))
       \<and> length r \<le> nat k
       \<and> retrieve ext self q 0 = Inr []
       \<and> (\<forall>(i, s) \<in> set r. 0 < s)
       \<and> ((q = [] \<longrightarrow> (\<forall>s \<in> set sc. s \<le> 0)) \<longrightarrow>
            length r = min (nat k) (length (filter (\<lambda>s. 0 < s) sc)))"
proof -
  assume k: "0 \<le> k" and srt: "sorts_ascending (argsort ext)" and dv: "doc_vectors self \<noteq> []"
  from srt dv obtain sc r where
    s: "scores ext self q = Inr sc" and
    ret: "retrieve ext self q k = Inr r" and
    fsts: "map fst r = (if q = [] then [] else ranked (argsort ext) sc k)" and
    mem: "\<forall>(i, s) \<in> set r. i < length sc \<and> s = sc ! i \<and> 0 < s"
    by (rule retrieve_result)
  have "length r = length (map fst r)" by simp
  also have "\<dots> = (if q = [] then 0 else min (nat k) (length (filter (\<lambda>s. 0 < s) sc)))"
    using srt k by (simp add: fsts length_ranked)
  finally have len:
    "length r = (if q = [] then 0 else min (nat k) (length (filter (\<lambda>s. 0 < s) sc)))" .
  then have le: "length r \<le> nat k" by simp
  have zero: "retrieve ext self q 0 = Inr []"
    using s by (simp add: retrieve_def slice_to_def)
  have pos: "\<forall>(i, s) \<in> set r. 0 < s"
    using mem by auto
  have every: "length r = min (nat k) (length (filter (\<lambda>s. 0 < s) sc))"
    if lib: "q = [] \<longrightarrow> (\<forall>s \<in> set sc. s \<le> 0)"
  proof (cases "q = []")
    case True
    with lib have "\<forall>s \<in> set sc. \<not> 0 < s"
      by (simp add: not_less)
    then have "filter (\<lambda>s. 0 < s) sc = []"
      by (simp add: filter_empty_conv)
    with True len show ?thesis by simp
  next
    case False
    with len show ?thesis by simp
  qed
  from s ret len le zero pos every show ?thesis by blast
qed

theorem retrieve_length_witness:
  "(0::int) \<le> 1 \<and> sorts_ascending (argsort word_counts) \<and> doc_vectors shop \<noteq> []
   \<and> scores word_counts shop ''fast'' = Inr [1, 1, 0]
   \<and> retrieve word_counts shop ''fast'' 1 = Inr [(1, 1)]
   \<and> length [(1::nat, 1::real)] = min (nat 1) (length (filter (\<lambda>s. 0 < s) [1, 1, 0 :: real]))
   \<and> scores word_counts shop '''' = Inr [0, 0, 0]
   \<and> retrieve word_counts shop '''' 1 = Inr []"
proof -
  have a: "retrieve word_counts shop ''fast'' 1 = Inr [(1, 1)]"
    by (rule retrieve_fast_1)
  have b: "retrieve word_counts shop '''' 1 = Inr []"
    using retrieve_length [OF _ sorts_word_counts vectors_shop, of 1 "''''"]
    by (auto simp: scores_empty)
  have c: "length [(1::nat, 1::real)] = min (nat 1) (length (filter (\<lambda>s. 0 < s) [1, 1, 0 :: real]))"
    using retrieve_length [OF _ sorts_word_counts vectors_shop, of 1 "''fast''"]
    by (auto simp: scores_fast a)
  from a b c show ?thesis
    by (simp add: sorts_word_counts vectors_shop scores_fast scores_empty)
qed

text \<open>
  Claim C4.  For every \<open>k\<close> and every engine state, \<open>retrieve\<close> on the empty query returns
  the empty sequence and raises nothing: the empty query returns before the vectorizer or
  any other library function is called.
\<close>

theorem retrieve_empty_query: "retrieve ext self [] k = Inr []"
  by (simp add: retrieve_def)

text \<open>
  Claim C5.  When the file can be read and parsed, \<open>load_docs\<close> raises (the \<open>ValueError\<close>
  ``documents JSON must contain a list'', which the specification calls \<open>FormatError\<close>)
  exactly when the parsed top-level value is not a list; when it is a list, \<open>load_docs\<close>
  returns that list itself: the same length, the same order, every element unchanged.
\<close>

theorem load_docs_list:
  "fs path = Some f \<Longrightarrow> json_load f = Inr data \<Longrightarrow>
     (load_docs fs json_load path = Inl (ValueError ''documents JSON must contain a list'')
        \<longleftrightarrow> (\<forall>xs. data \<noteq> JList xs))
   \<and> ((\<exists>e. load_docs fs json_load path = Inl e) \<longleftrightarrow> (\<forall>xs. data \<noteq> JList xs))
   \<and> (\<forall>xs. data = JList xs \<longrightarrow> load_docs fs json_load path = Inr xs)"
  by (cases data) (simp_all add: load_docs_def)

theorem load_docs_list_witness:
  "[''docs.json'' \<mapsto> ''[{}, 7]''] ''docs.json'' = Some ''[{}, 7]''
   \<and> (\<lambda>_. Inr (JList [JDict [], JInt 7])) ''[{}, 7]''
       = (Inr (JList [JDict [], JInt 7]) :: error + json)
   \<and> load_docs [''docs.json'' \<mapsto> ''[{}, 7]''] (\<lambda>_. Inr (JList [JDict [], JInt 7]))
        ''docs.json''
       = Inr [JDict [], JInt 7]"
  using load_docs_list [of "[''docs.json'' \<mapsto> ''[{}, 7]'']" "''docs.json''" "''[{}, 7]''"
      "\<lambda>_. Inr (JList [JDict [], JInt 7])" "JList [JDict [], JInt 7]"]
  by simp

text \<open>
  Claim C6.  On an engine built by the constructor, for every query and \<open>k\<close>, \<open>retrieve\<close>
  returns a sequence.  If it is empty, \<open>answer\<close> returns the fallback string, which is not
  empty; otherwise the first entry's index is a position of the document list and \<open>answer\<close>
  returns the title, then \<open>': '\<close>, then the description of that document, each field
  formatted as the f-string does and replaced by the empty string when the document lacks
  it.
\<close>

theorem answer_top_document:
  "RAG_init ext documents = Inr self \<Longrightarrow> sorts_ascending (argsort ext) \<Longrightarrow>
     \<exists>r. retrieve ext self q k = Inr r
       \<and> (r = [] \<longrightarrow> answer ext self q k = Inr fallback)
       \<and> fallback \<noteq> []
       \<and> (\<forall>idx score rest. r = (idx, score) # rest \<longrightarrow>
             idx < length documents
             \<and> answer ext self q k =
                 Inr (format_value (py_str ext)
                        (dict_get (documents ! idx) ''title'' (JStr ''''))
                      @ '': ''
                      @ format_value (py_str ext)
                          (dict_get (documents ! idx) ''description'' (JStr ''''))))"
proof -
  assume init: "RAG_init ext documents = Inr self" and srt: "sorts_ascending (argsort ext)"
  from init have ds: "docs self = documents"
    and len: "length (doc_vectors self) = length documents"
    and dv: "doc_vectors self \<noteq> []"
    by (simp_all add: RAG_init_Inr)
  from srt dv obtain sc r where
    sl: "length sc = length (doc_vectors self)" and
    ret: "retrieve ext self q k = Inr r" and
    mem: "\<forall>(i, s) \<in> set r. i < length sc \<and> s = sc ! i \<and> 0 < s"
    by (rule retrieve_result)
  have none: "r = [] \<longrightarrow> answer ext self q k = Inr fallback"
    using ret by (simp add: answer_Nil)
  have fb: "fallback \<noteq> []"
    by (simp add: fallback_def)
  have some: "idx < length documents
         \<and> answer ext self q k =
             Inr (format_value (py_str ext) (dict_get (documents ! idx) ''title'' (JStr ''''))
                  @ '': ''
                  @ format_value (py_str ext)
                      (dict_get (documents ! idx) ''description'' (JStr '''')))"
    if r: "r = (idx, score) # rest" for idx score rest
  proof -
    from r mem have "idx < length sc" by simp
    with sl len ds have bound: "idx < length (docs self)" by simp
    from ret r have "retrieve ext self q k = Inr ((idx, score) # rest)" by simp
    with bound show ?thesis
      using answer_Cons [of ext self q k idx score rest] ds by simp
  qed
  from ret none fb some show ?thesis by blast
qed

theorem answer_top_document_witness:
  "RAG_init word_counts [laptop, phone, cable] = Inr shop
   \<and> sorts_ascending (argsort word_counts)
   \<and> retrieve word_counts shop ''tablet'' 1 = Inr []
   \<and> answer word_counts shop ''tablet'' 1 = Inr fallback
   \<and> retrieve word_counts shop ''cable'' 1 = Inr [(2, 1)]
   \<and> answer word_counts shop ''cable'' 1 = Inr ''cable: ''
   \<and> answer word_counts shop ''fast'' 3 = Inr ''phone: fast''"
proof -
  have a: "answer word_counts shop ''tablet'' 1 = Inr fallback"
    using answer_top_document [OF init_shop sorts_word_counts, of "''tablet''" 1]
    by (auto simp: retrieve_tablet)
  have b: "answer word_counts shop ''cable'' 1 = Inr ''cable: ''"
    using answer_top_document [OF init_shop sorts_word_counts, of "''cable''" 1]
    by (auto simp: retrieve_cable cable_def dict_get_def format_value_def)
  have c: "answer word_counts shop ''fast'' 3 = Inr ''phone: fast''"
    using answer_top_document [OF init_shop sorts_word_counts, of "''fast''" 3]
    by (auto simp: retrieve_fast phone_def dict_get_def format_value_def)
  from a b c show ?thesis
    by (simp add: init_shop sorts_word_counts retrieve_cable retrieve_tablet)
qed

text \<open>
  A catalogue of one document with three distinct terms, queried with the same three
  terms, in float64 arithmetic: each entry of the document row and of the query row is
  \<open>1.0 / sqrt 3.0 = 0.5773502691896258\<close>, each of the three products rounds to
  \<open>0.33333333333333337\<close>, and their sum rounds to \<open>1.0000000000000002\<close>, which is
  \<open>1 + 2\<^sup>-\<^sup>5\<^sup>2\<close>.  \<open>retrieve\<close> returns this score as it is.
\<close>

theorem retrieve_score_above_one_counterexample:
  "RAG_init float64_tfidf [gadget] = Inr kiosk
   \<and> retrieve float64_tfidf kiosk ''laptop phone cable'' 1
       = Inr [(0, 4503599627370497 / 4503599627370496)]
   \<and> (1::real) < 4503599627370497 / 4503599627370496"
  using init_kiosk retrieve_kiosk by simp

text \<open>
  Claim C8, amended.  On an engine that has document vectors, for every query and \<open>k\<close>,
  every score in the sequence returned by \<open>retrieve\<close> is positive, and the scores are
  non-increasing from the first position to the last.  Each returned score is the value
  that the kernel computed for its document, unchanged: it is at most 1 when the kernel's
  values for the query are at most 1, and float64 rounding does not keep the dot product
  of two normalised rows below that bound.
\<close>

theorem retrieve_scores_positive_descending:
  "sorts_ascending (argsort ext) \<Longrightarrow> doc_vectors self \<noteq> [] \<Longrightarrow>
     \<exists>r. retrieve ext self q k = Inr r
       \<and> (\<forall>(i, s) \<in> set r. 0 < s)
       \<and> sorted_wrt (\<ge>) (map snd r)
       \<and> (\<forall>(i, s) \<in> set r.
             i < length (doc_vectors self)
             \<and> s = kernel ext (vectorizer self q) (doc_vectors self ! i))
       \<and> ((\<forall>d \<in> set (doc_vectors self). kernel ext (vectorizer self q) d \<le> 1) \<longrightarrow>
            (\<forall>(i, s) \<in> set r. s \<le> 1))"
proof -
  assume srt: "sorts_ascending (argsort ext)" and dv: "doc_vectors self \<noteq> []"
  from srt dv obtain sc r where
    s: "scores ext self q = Inr sc" and
    sl: "length sc = length (doc_vectors self)" and
    ret: "retrieve ext self q k = Inr r" and
    mem: "\<forall>(i, s) \<in> set r. i < length sc \<and> s = sc ! i \<and> 0 < s" and
    sorted: "sorted_wrt (\<lambda>x y. snd y \<le> snd x) r"
    by (rule retrieve_result)
  have pos: "\<forall>(i, s) \<in> set r. 0 < s"
    using mem by auto
  have desc: "sorted_wrt (\<ge>) (map snd r)"
    using sorted by (simp add: sorted_wrt_map)
  have val: "\<forall>(i, s) \<in> set r.
      i < length (doc_vectors self) \<and> s = kernel ext (vectorizer self q) (doc_vectors self ! i)"
    using mem sl scores_kernel [OF s] by auto
  have bound: "\<forall>(i, s) \<in> set r. s \<le> 1"
    if le: "\<forall>d \<in> set (doc_vectors self). kernel ext (vectorizer self q) d \<le> 1"
  proof -
    have "s \<le> 1" if "(i, s) \<in> set r" for i s
    proof -
      from that val have i: "i < length (doc_vectors self)"
        and v: "s = kernel ext (vectorizer self q) (doc_vectors self ! i)"
        by auto
      from i have "doc_vectors self ! i \<in> set (doc_vectors self)" by simp
      with le v show ?thesis by simp
    qed
    then show ?thesis by auto
  qed
  from ret pos desc val bound show ?thesis by blast
qed

theorem retrieve_scores_positive_descending_witness:
  "sorts_ascending (argsort word_counts) \<and> doc_vectors shop \<noteq> []
   \<and> scores word_counts shop ''fast'' = Inr [1, 1, 0]
   \<and> retrieve word_counts shop ''fast'' 3 = Inr [(1, 1), (0, 1)]
   \<and> sorted_wrt (\<ge>) (map snd [(1::nat, 1::real), (0, 1)])"
  using retrieve_scores_positive_descending [OF sorts_word_counts vectors_shop, of "''fast''" 3]
  by (simp add: sorts_word_counts vectors_shop scores_fast retrieve_fast)

text \<open>
  Claim C9.  On an engine built by the constructor, \<open>retrieve\<close> returns a sequence in which
  every pair has an index that is a position of the engine's document list and the indices
  are pairwise distinct, and \<open>answer\<close> returns a string: its lookup of the top document
  never raises \<open>IndexError\<close>.
\<close>

theorem retrieve_indices_valid:
  "RAG_init ext documents = Inr self \<Longrightarrow> sorts_ascending (argsort ext) \<Longrightarrow>
     \<exists>r. retrieve ext self q k = Inr r
       \<and> (\<forall>(i, s) \<in> set r. i < length (docs self))
       \<and> distinct (map fst r)
       \<and> (\<exists>a. answer ext self q k = Inr a)"
proof -
  assume init: "RAG_init ext documents = Inr self" and srt: "sorts_ascending (argsort ext)"
  from init have len: "length (doc_vectors self) = length (docs self)"
    and dv: "doc_vectors self \<noteq> []"
    by (simp_all add: RAG_init_Inr)
  from srt dv obtain sc r where
    sl: "length sc = length (doc_vectors self)" and
    ret: "retrieve ext self q k = Inr r" and
    mem: "\<forall>(i, s) \<in> set r. i < length sc \<and> s = sc ! i \<and> 0 < s" and
    dist: "distinct (map fst r)"
    by (rule retrieve_result)
  have bound: "\<forall>(i, s) \<in> set r. i < length (docs self)"
    using mem sl len by auto
  have ans: "\<exists>a. answer ext self q k = Inr a"
  proof (cases r)
    case Nil
    with ret show ?thesis by (simp add: answer_Nil)
  next
    case (Cons p rest)
    obtain idx s where p: "p = (idx, s)" by (cases p)
    with Cons bound have "idx < length (docs self)" by auto
    moreover from ret Cons p have "retrieve ext self q k = Inr ((idx, s) # rest)" by simp
    ultimately show ?thesis
      using answer_Cons [of ext self q k idx s rest] by simp
  qed
  from ret bound dist ans show ?thesis by blast
qed

theorem retrieve_indices_valid_witness:
  "RAG_init word_counts [laptop, phone, cable] = Inr shop
   \<and> sorts_ascending (argsort word_counts)
   \<and> retrieve word_counts shop ''fast'' 3 = Inr [(1, 1), (0, 1)]
   \<and> length (docs shop) = 3
   \<and> distinct (map fst [(1::nat, 1::real), (0, 1)])
   \<and> answer word_counts shop ''fast'' 3 = Inr ''phone: fast''"
  using retrieve_indices_valid [OF init_shop sorts_word_counts, of "''fast''" 3]
  by (simp add: init_shop sorts_word_counts retrieve_fast answer_fast docs_shop)

end
